theory Spec2Isabelle
  imports Complex_Main "HOL-Library.Word"
begin

unbundle bit_operations_syntax

section \<open>Data model\<close>

text \<open>
  Byte strings are lists of 8-bit words. A Python text string is held as the list of the
  characters of its UTF-8 form, so that \<open>s.encode("utf-8")\<close> reads each character as
  one byte.
\<close>

type_synonym byte = "8 word"
type_synonym bytes = "byte list"

definition encode_utf8 :: "string \<Rightarrow> bytes" where
  "encode_utf8 s = map of_char s"

text \<open>
  The exceptions of \<open>verify.py\<close>, with the arguments they are raised with, and the
  Python errors the modelled code can run into. \<open>CollaboratorError\<close> stands for the
  exceptions of the modules that are consumed through their interface only (malformed
  receipt, unknown algorithm, invalid signature, invalid cash register index, ...).
\<close>

datatype error =
    ClusterInOpenSystemException
  | ChainingException string "string option"
  | NoRestoreReceiptAfterSignatureSystemFailureException string
  | DuplicateReceiptIdException string
  | InvalidTurnoverCounterException string
  | ChangingRegisterIdException string
  | ChangingSystemTypeException string
  | NoCertificateGivenException
  | UntrustedCertificateException string
  | CertificateChainBrokenException string string
  | CertificateSerialCollisionException string string string
  | SignatureSystemFailedOnInitialReceiptException string
  | NonzeroTurnoverOnInitialReceiptException string
  | InvalidChainingOnInitialReceiptException string
  | InvalidChainingOnClusterInitialReceiptException string
  | NonstandardTypeOnInitialReceiptException string
  | ThisIsABugException
  | OverflowError
  | ValueError
  | KeyError string
  | AttributeError
  | CollaboratorError string

text \<open>
  The parsed receipt object. The class \<open>receipt.Receipt\<close> is consumed by
  \<open>verify.py\<close> and \<open>algorithms.py\<close> through the fields and predicates below. The five
  sums are decimals with two fractional digits; they are held as rationals. The flags
  \<open>isDummy\<close>, \<open>isReversal\<close> and \<open>isSignedBroken\<close> are the results of the methods of
  these names on the parsed object.
\<close>

record receipt =
  zda :: string
  registerId :: string
  receiptId :: string
  sumA :: rat
  sumB :: rat
  sumC :: rat
  sumD :: rat
  sumE :: rat
  encTurnoverCounter :: string
  previousChain :: string
  isDummy :: bool
  isReversal :: bool
  isSignedBroken :: bool

text \<open>
  Modelled from the spec: \<open>Receipt.isNull\<close> is not part of the sources at hand; a null
  receipt is a receipt with all five partitioned sums equal to zero.
\<close>

definition isNull :: "receipt \<Rightarrow> bool" where
  "isNull ro = (sumA ro = 0 \<and> sumB ro = 0 \<and> sumC ro = 0 \<and> sumD ro = 0 \<and> sumE ro = 0)"

text \<open>
  A certificate, as far as \<open>verifyCert\<close> reads it: its serial number; the rest of
  its content is opaque. The key store is read through \<open>getCert\<close>, from a key id to
  the stored certificate, if any. A receipt verifier object is read through the status
  it reports for the signature of a JWS string.
\<close>

record certificate =
  serial :: int
  content :: string

type_synonym keyStore = "string \<Rightarrow> certificate option"

datatype signature_status =
    SignatureValid
  | SignatureSystemFailedException
  | UnsignedNullReceiptException
  | SignatureError error

type_synonym verifier = "string \<Rightarrow> signature_status"

text \<open>
  The state of one cash register (\<open>verification_state.CashRegisterState\<close>) and of
  the cluster (\<open>verification_state.ClusterState\<close>): an ordered sequence of register
  states and the cluster-wide set of used receipt IDs.
\<close>

record CashRegisterState =
  startReceiptJWS :: "string option"
  lastReceiptJWS :: "string option"
  lastTurnoverCounter :: int
  needRestoreReceipt :: bool

definition CashRegisterState_new :: CashRegisterState where
  "CashRegisterState_new =
     \<lparr>startReceiptJWS = None, lastReceiptJWS = None, lastTurnoverCounter = 0,
      needRestoreReceipt = False\<rparr>"

record ClusterState =
  cashRegisters :: "CashRegisterState list"
  clusterUsedReceiptIds :: "string set"

definition ClusterState_new :: ClusterState where
  "ClusterState_new = \<lparr>cashRegisters = [], clusterUsedReceiptIds = {}\<rparr>"

text \<open>
  The collaborators the verification code consumes through their interface: the crypto
  primitives of \<open>utils\<close> (SHA-256, the AES-256 block encryption under a key, the
  fingerprint of a certificate and the check that one certificate signed another),
  Python's base64 codec, the expansion of a compressed DEP receipt, the receipt parser
  (the receipt object and its algorithm prefix, or an exception), the key id of a
  serial number, the two constructors of receipt verifiers, the first identifier that
  iterating over a set of identifiers meets among those already seen, and the two
  accessors of the cluster state.
\<close>

record env =
  sha256 :: "bytes \<Rightarrow> bytes"
  aes256_block :: "bytes \<Rightarrow> 128 word \<Rightarrow> 128 word"
  b64encode :: "bytes \<Rightarrow> string"
  b64decode :: "string \<Rightarrow> bytes"
  expandDEPReceipt :: "string \<Rightarrow> string"
  parseJWS :: "string \<Rightarrow> error + receipt \<times> string"
  numSerialToKeyId :: "int \<Rightarrow> string"
  certFingerprint :: "certificate \<Rightarrow> string"
  certSignedBy :: "certificate \<Rightarrow> certificate \<Rightarrow> bool"
  verifierFromKeyStore :: "keyStore \<Rightarrow> verifier"
  verifierFromCert :: "certificate \<Rightarrow> verifier"
  firstSeen :: "string set \<Rightarrow> string"
  getCashRegisterInfo ::
    "ClusterState \<Rightarrow> int option \<Rightarrow> error + string option \<times> CashRegisterState \<times> string set"
  updateCashRegisterInfo ::
    "ClusterState \<Rightarrow> int option \<Rightarrow> CashRegisterState \<Rightarrow> string set \<Rightarrow> ClusterState"

text \<open>Python's truth value of an optional string or byte string: neither None nor empty.\<close>

definition truthy :: "'a list option \<Rightarrow> bool" where
  "truthy v = (case v of None \<Rightarrow> False | Some s \<Rightarrow> s \<noteq> [])"

section \<open>Python integers as bytes\<close>

text \<open>
  \<open>be_bytes n x\<close> are the \<open>n\<close> low bytes of \<open>x\<close>, most significant first;
  \<open>be_int\<close> reads a byte string as an unsigned big-endian number.
\<close>

fun be_bytes :: "nat \<Rightarrow> int \<Rightarrow> bytes" where
  "be_bytes 0 x = []"
| "be_bytes (Suc n) x = be_bytes n (x div 256) @ [word_of_int x]"

definition be_int :: "bytes \<Rightarrow> int" where
  "be_int bs = foldl (\<lambda>a b. a * 256 + uint b) 0 bs"

text \<open>
  \<open>x.to_bytes(size, byteorder='big', signed=True)\<close>: two's complement in \<open>size\<close>
  bytes, OverflowError when \<open>x\<close> does not fit.
\<close>

definition int_to_bytes :: "int \<Rightarrow> nat \<Rightarrow> error + bytes" where
  "int_to_bytes x sz =
     (if (sz = 0 \<and> x = 0) \<or> (0 < sz \<and> - (2 ^ (8 * sz - 1)) \<le> x \<and> x < 2 ^ (8 * sz - 1))
      then Inr (be_bytes sz (x mod 2 ^ (8 * sz)))
      else Inl OverflowError)"

text \<open>\<open>int.from_bytes(bs, byteorder='big', signed=True)\<close>.\<close>

definition int_from_bytes :: "bytes \<Rightarrow> int" where
  "int_from_bytes bs =
     (let u = be_int bs; n = length bs
      in if 0 < n \<and> 2 ^ (8 * n - 1) \<le> u then u - 2 ^ (8 * n) else u)"

section \<open>Algorithm R1 (algorithms.py)\<close>

text \<open>
  Modelled from the spec: \<open>utils.aes256ctr\<close> is not part of the sources at hand. The
  spec names it AES-256 in counter mode: block \<open>i\<close> of the key stream is the block
  encryption of the 128-bit counter \<open>iv + i\<close>, and the output is the input XOR the key
  stream, cut to the input's length. The block encryption itself is a parameter. A
  key that is not 32 bytes or an initial counter that is not 16 bytes is refused.
\<close>

definition ctr_keystream :: "env \<Rightarrow> bytes \<Rightarrow> bytes \<Rightarrow> nat \<Rightarrow> bytes" where
  "ctr_keystream c k iv n =
     take n (concat (map (\<lambda>i. be_bytes 16 (uint (aes256_block c k (word_of_int (be_int iv) + of_nat i))))
                         [0 ..< (n + 15) div 16]))"

definition aes256ctr :: "env \<Rightarrow> bytes \<Rightarrow> bytes \<Rightarrow> bytes \<Rightarrow> error + bytes" where
  "aes256ctr c iv k dat =
     (if length k \<noteq> 32 \<or> length iv \<noteq> 16 then Inl ValueError
      else Inr (map2 (XOR) dat (ctr_keystream c k iv (length dat))))"

definition chainBytes :: nat where
  "chainBytes = 8"

definition R1_hash :: "env \<Rightarrow> string \<Rightarrow> bytes" where
  "R1_hash c dat = sha256 c (encode_utf8 dat)"

definition R1_chain :: "env \<Rightarrow> receipt \<Rightarrow> string option \<Rightarrow> bytes" where
  "R1_chain c ro previousJwsString =
     (let chainingValue =
            (case previousJwsString of
               Some p \<Rightarrow> if p \<noteq> [] then sha256 c (encode_utf8 p)
                         else sha256 c (encode_utf8 (registerId ro))
             | None \<Rightarrow> sha256 c (encode_utf8 (registerId ro)))
      in take 8 chainingValue)"

definition R1_verifyKey :: "bytes \<Rightarrow> bool" where
  "R1_verifyKey k = (length k = 32)"

definition R1_iv :: "env \<Rightarrow> receipt \<Rightarrow> bytes" where
  "R1_iv c ro = take 16 (sha256 c (encode_utf8 (registerId ro) @ encode_utf8 (receiptId ro)))"

definition R1_encryptTurnoverCounter :: "env \<Rightarrow> receipt \<Rightarrow> int \<Rightarrow> bytes \<Rightarrow> nat \<Rightarrow> error + bytes" where
  "R1_encryptTurnoverCounter c ro turnoverCounter k sz =
     (let iv = R1_iv c ro
      in case int_to_bytes turnoverCounter sz of
           Inl e \<Rightarrow> Inl e
         | Inr pt \<Rightarrow> aes256ctr c iv k pt)"

definition R1_decryptTurnoverCounter :: "env \<Rightarrow> receipt \<Rightarrow> bytes \<Rightarrow> bytes \<Rightarrow> error + int" where
  "R1_decryptTurnoverCounter c ro encCtr k =
     (let iv = R1_iv c ro
      in case aes256ctr c iv k encCtr of
           Inl e \<Rightarrow> Inl e
         | Inr decCtr \<Rightarrow> Inr (int_from_bytes decCtr))"

text \<open>The registry \<open>ALGORITHMS\<close>: the only entry is R1.\<close>

datatype algorithm = R1

definition ALGORITHMS :: "string \<Rightarrow> algorithm option" where
  "ALGORITHMS p = (if p = ''R1'' then Some R1 else None)"

definition algorithm_chain :: "env \<Rightarrow> algorithm \<Rightarrow> receipt \<Rightarrow> string option \<Rightarrow> bytes" where
  "algorithm_chain c a ro p = (case a of R1 \<Rightarrow> R1_chain c ro p)"

section \<open>Receipts and verifiers as verify.py consumes them\<close>

text \<open>
  Modelled from the spec: \<open>Receipt.fromJWSString\<close> is not part of the sources at
  hand. A JWS is the compact serialization of header, payload and signature, so the
  empty string is malformed; every other string is left to the parser.
\<close>

definition fromJWSString :: "env \<Rightarrow> string \<Rightarrow> error + receipt \<times> string" where
  "fromJWSString c s =
     (if s = [] then Inl (CollaboratorError ''MalformedReceiptException'') else parseJWS c s)"

text \<open>
  Modelled from the spec: \<open>ReceiptVerifier.verifyJWS\<close> is not part of the sources at
  hand. It parses the JWS and verifies its signature; it returns the receipt object
  and its algorithm, or raises. The two exceptions \<open>verifyGroup\<close> catches are the
  outcome \<open>Caught\<close>.
\<close>

datatype verify_result = Verified receipt algorithm | Caught | Raised error

definition verifyJWS :: "env \<Rightarrow> verifier \<Rightarrow> string \<Rightarrow> verify_result" where
  "verifyJWS c rv r =
     (case fromJWSString c r of
        Inl e \<Rightarrow> Raised e
      | Inr (ro, algorithmPrefix) \<Rightarrow>
          (case ALGORITHMS algorithmPrefix of
             None \<Rightarrow> Raised (CollaboratorError ''UnknownAlgorithmException'')
           | Some a \<Rightarrow>
               (case rv r of
                  SignatureValid \<Rightarrow> Verified ro a
                | SignatureSystemFailedException \<Rightarrow> Caught
                | UnsignedNullReceiptException \<Rightarrow> Caught
                | SignatureError e \<Rightarrow> Raised e)))"

text \<open>
  Modelled from the spec: \<open>Receipt.decryptTurnoverCounter\<close> is not part of the
  sources at hand. It decrypts the encrypted turnover counter of the receipt with the
  key and the algorithm.
\<close>

definition receipt_decryptTurnoverCounter ::
    "env \<Rightarrow> receipt \<Rightarrow> bytes \<Rightarrow> algorithm \<Rightarrow> error + int" where
  "receipt_decryptTurnoverCounter c ro k a =
     (case a of R1 \<Rightarrow> R1_decryptTurnoverCounter c ro (b64decode c (encTurnoverCounter ro)) k)"

text \<open>
  \<open>int(round(x))\<close> as Python 2.7 computes it, halves away from zero. On a sum of
  decimals with two fractional digits times 100 the argument is a whole number and
  every rounding mode returns it.
\<close>

definition py_round :: "rat \<Rightarrow> int" where
  "py_round x = (if 0 \<le> x then \<lfloor>x + 1 / 2\<rfloor> else \<lceil>x - 1 / 2\<rceil>)"

section \<open>verify.py\<close>

subsection \<open>verifyChain\<close>

definition verifyChain :: "env \<Rightarrow> receipt \<Rightarrow> string option \<Rightarrow> algorithm \<Rightarrow> error + unit" where
  "verifyChain c ro prv a =
     (let chainingValue = b64encode c (algorithm_chain c a ro prv)
      in if chainingValue \<noteq> previousChain ro then Inl (ChainingException (receiptId ro) prv)
         else Inr ())"

subsection \<open>verifyCert\<close>

text \<open>
  The lookup both the loop and the code after it make: the certificate's key id in the
  key store, and the comparison of the fingerprints when it is found.
\<close>

definition keyStoreLookup :: "env \<Rightarrow> keyStore \<Rightarrow> certificate \<Rightarrow> (error + unit) option" where
  "keyStoreLookup c ks prv =
     (case ks (numSerialToKeyId c (serial prv)) of
        None \<Rightarrow> None
      | Some ksCert \<Rightarrow>
          Some (if certFingerprint c ksCert \<noteq> certFingerprint c prv
                then Inl (CertificateSerialCollisionException
                            (numSerialToKeyId c (serial prv))
                            (certFingerprint c prv) (certFingerprint c ksCert))
                else Inr ()))"

fun verifyCert_loop ::
    "env \<Rightarrow> keyStore \<Rightarrow> certificate \<Rightarrow> certificate \<Rightarrow> certificate list \<Rightarrow> error + unit" where
  "verifyCert_loop c ks cert prv [] =
     (case keyStoreLookup c ks prv of
        Some res \<Rightarrow> res
      | None \<Rightarrow> Inl (UntrustedCertificateException (numSerialToKeyId c (serial cert))))"
| "verifyCert_loop c ks cert prv (x # xs) =
     (case keyStoreLookup c ks prv of
        Some res \<Rightarrow> res
      | None \<Rightarrow>
          if \<not> certSignedBy c prv x
          then Inl (CertificateChainBrokenException
                      (numSerialToKeyId c (serial prv)) (numSerialToKeyId c (serial x)))
          else verifyCert_loop c ks cert x xs)"

definition verifyCert :: "env \<Rightarrow> certificate \<Rightarrow> certificate list \<Rightarrow> keyStore \<Rightarrow> error + unit" where
  "verifyCert c cert chain ks = verifyCert_loop c ks cert cert chain"

subsection \<open>verifyGroup\<close>

text \<open>The variables the loop of \<open>verifyGroup\<close> carries from one receipt to the next.\<close>

record loop_vars =
  cashRegisterState :: CashRegisterState
  usedReceiptIds :: "string set"
  prev :: "string option"
  prevObj :: "receipt option"

text \<open>
  Lines 379 to 401: the signature of the receipt and the restore-receipt discipline.
  The result is the receipt object, its algorithm and the updated register state.
\<close>

definition checkSignature ::
    "env \<Rightarrow> verifier \<Rightarrow> loop_vars \<Rightarrow> string \<Rightarrow> error + receipt \<times> algorithm \<times> CashRegisterState" where
  "checkSignature c rv v r =
     (case verifyJWS c rv r of
        Verified ro a \<Rightarrow>
          (case prevObj v of
             Some po \<Rightarrow>
               if \<not> isNull ro \<or> isDummy ro \<or> isReversal ro then
                 if needRestoreReceipt (cashRegisterState v)
                 then Inl (NoRestoreReceiptAfterSignatureSystemFailureException (receiptId ro))
                 else if isSignedBroken po
                      then Inr (ro, a, (cashRegisterState v)\<lparr>needRestoreReceipt := True\<rparr>)
                      else Inr (ro, a, cashRegisterState v)
               else Inr (ro, a, (cashRegisterState v)\<lparr>needRestoreReceipt := False\<rparr>)
           | None \<Rightarrow> Inr (ro, a, (cashRegisterState v)\<lparr>needRestoreReceipt := False\<rparr>))
      | Caught \<Rightarrow>
          (case fromJWSString c r of
             Inl e \<Rightarrow> Inl e
           | Inr (ro, algorithmPrefix) \<Rightarrow>
               if prevObj v = None
               then Inl (SignatureSystemFailedOnInitialReceiptException (receiptId ro))
               else if needRestoreReceipt (cashRegisterState v)
               then Inl (NoRestoreReceiptAfterSignatureSystemFailureException (receiptId ro))
               else (case ALGORITHMS algorithmPrefix of
                       None \<Rightarrow> Inl (KeyError algorithmPrefix)
                     | Some a \<Rightarrow> Inr (ro, a, cashRegisterState v)))
      | Raised e \<Rightarrow> Inl e)"

text \<open>
  Lines 403 to 418: the checks on the first receipt of a register. The result is the
  previous JWS, the previous receipt object and the register state the rest of the loop
  body works with.
\<close>

definition checkInitialReceipt ::
    "env \<Rightarrow> string option \<Rightarrow> loop_vars \<Rightarrow> CashRegisterState \<Rightarrow> string \<Rightarrow> receipt \<Rightarrow>
     error + string option \<times> receipt option \<times> CashRegisterState" where
  "checkInitialReceipt c prevStartReceiptJWS v crs r ro =
     (case prevObj v of
        Some po \<Rightarrow> Inr (prev v, Some po, crs)
      | None \<Rightarrow>
          if \<not> isNull ro then Inl (NonzeroTurnoverOnInitialReceiptException (receiptId ro))
          else if isDummy ro \<or> isReversal ro
          then Inl (NonstandardTypeOnInitialReceiptException (receiptId ro))
          else (case (if truthy prevStartReceiptJWS then prevStartReceiptJWS else None) of
                  None \<Rightarrow> Inr (prev v, None, crs\<lparr>startReceiptJWS := Some r\<rparr>)
                | Some ps \<Rightarrow>
                    if zda ro \<noteq> ''AT0'' then Inl ClusterInOpenSystemException
                    else (case fromJWSString c ps of
                            Inl e \<Rightarrow> Inl e
                          | Inr (po, algorithmPrefix) \<Rightarrow>
                              if zda po \<noteq> ''AT0'' then Inl ClusterInOpenSystemException
                              else Inr (Some ps, Some po, crs\<lparr>startReceiptJWS := Some r\<rparr>))))"

text \<open>
  Lines 420 to 433: the checks against the previous receipt, and the receipt ID added
  to the used IDs.
\<close>

definition checkAgainstPrevious ::
    "receipt option \<Rightarrow> string set \<Rightarrow> receipt \<Rightarrow> error + string set" where
  "checkAgainstPrevious pobj used ro =
     (case pobj of
        Some po \<Rightarrow>
          if receiptId ro \<in> used then Inl (DuplicateReceiptIdException (receiptId ro))
          else if registerId po \<noteq> registerId ro
          then Inl (ChangingRegisterIdException (receiptId ro))
          else if (zda po = ''AT0'' \<and> zda ro \<noteq> ''AT0'') \<or> (zda po \<noteq> ''AT0'' \<and> zda ro = ''AT0'')
          then Inl (ChangingSystemTypeException (receiptId ro))
          else Inr (insert (receiptId ro) used)
      | None \<Rightarrow> Inr (insert (receiptId ro) used))"

text \<open>Lines 435 to 443: the chain check and the exceptions for the initial receipt.\<close>

definition checkChain ::
    "env \<Rightarrow> string option \<Rightarrow> CashRegisterState \<Rightarrow> string \<Rightarrow> receipt \<Rightarrow> string option \<Rightarrow>
     algorithm \<Rightarrow> error + unit" where
  "checkChain c prevStartReceiptJWS crs r ro prv a =
     (case verifyChain c ro prv a of
        Inl e \<Rightarrow>
          if startReceiptJWS crs = Some r then
            if truthy prevStartReceiptJWS
            then Inl (InvalidChainingOnClusterInitialReceiptException (receiptId ro))
            else Inl (InvalidChainingOnInitialReceiptException (receiptId ro))
          else Inl e
      | Inr u \<Rightarrow> Inr ())"

text \<open>Lines 445 to 453: the turnover counter.\<close>

definition checkTurnoverCounter ::
    "env \<Rightarrow> bytes option \<Rightarrow> CashRegisterState \<Rightarrow> receipt \<Rightarrow> algorithm \<Rightarrow> error + CashRegisterState" where
  "checkTurnoverCounter c k crs ro a =
     (if \<not> isDummy ro then
        (case (if truthy k then k else None) of
           None \<Rightarrow> Inr crs
         | Some kb \<Rightarrow>
             (let newC = lastTurnoverCounter crs
                    + py_round ((sumA ro + sumB ro + sumC ro + sumD ro + sumE ro) * 100)
              in if \<not> isReversal ro then
                   (case receipt_decryptTurnoverCounter c ro kb a of
                      Inl e \<Rightarrow> Inl e
                    | Inr turnoverCounter \<Rightarrow>
                        if turnoverCounter \<noteq> newC
                        then Inl (InvalidTurnoverCounterException (receiptId ro))
                        else Inr (crs\<lparr>lastTurnoverCounter := newC\<rparr>))
                 else Inr (crs\<lparr>lastTurnoverCounter := newC\<rparr>)))
      else Inr crs)"

text \<open>The body of the loop, for one receipt of the group.\<close>

definition verifyReceipt ::
    "env \<Rightarrow> verifier \<Rightarrow> bytes option \<Rightarrow> string option \<Rightarrow> loop_vars \<Rightarrow> string \<Rightarrow> error + loop_vars" where
  "verifyReceipt c rv k prevStartReceiptJWS v cr =
     (let r = expandDEPReceipt c cr
      in case checkSignature c rv v r of
           Inl e \<Rightarrow> Inl e
         | Inr (ro, a, crs1) \<Rightarrow>
             (case checkInitialReceipt c prevStartReceiptJWS v crs1 r ro of
                Inl e \<Rightarrow> Inl e
              | Inr (prv, pobj, crs2) \<Rightarrow>
                  (case checkAgainstPrevious pobj (usedReceiptIds v) ro of
                     Inl e \<Rightarrow> Inl e
                   | Inr used \<Rightarrow>
                       (case checkChain c prevStartReceiptJWS crs2 r ro prv a of
                          Inl e \<Rightarrow> Inl e
                        | Inr u \<Rightarrow>
                            (case checkTurnoverCounter c k crs2 ro a of
                               Inl e \<Rightarrow> Inl e
                             | Inr crs3 \<Rightarrow>
                                 Inr \<lparr>cashRegisterState = crs3, usedReceiptIds = used,
                                      prev = Some r, prevObj = Some ro\<rparr>)))))"

fun verifyGroup_loop ::
    "env \<Rightarrow> verifier \<Rightarrow> bytes option \<Rightarrow> string option \<Rightarrow> loop_vars \<Rightarrow> string list \<Rightarrow> error + loop_vars" where
  "verifyGroup_loop c rv k ps v [] = Inr v"
| "verifyGroup_loop c rv k ps v (cr # rest) =
     (case verifyReceipt c rv k ps v cr of
        Inl e \<Rightarrow> Inl e
      | Inr v' \<Rightarrow> verifyGroup_loop c rv k ps v' rest)"

text \<open>
  The receipt object of the last receipt of the register state, parsed before the
  loop when the state holds one.
\<close>

definition previousReceipt :: "env \<Rightarrow> string option \<Rightarrow> error + receipt option" where
  "previousReceipt c prv =
     (case (if truthy prv then prv else None) of
        None \<Rightarrow> Inr None
      | Some p \<Rightarrow>
          (case fromJWSString c p of
             Inl e \<Rightarrow> Inl e
           | Inr (po, algorithmPrefix) \<Rightarrow> Inr (Some po)))"

text \<open>
  \<open>verifyGroup\<close>. The register state and the used IDs are passed and returned as
  values; an absent register state is \<open>CashRegisterState_new\<close> and an absent or empty
  set of used IDs is the empty set.
\<close>

definition verifyGroup ::
    "env \<Rightarrow> string list \<Rightarrow> verifier \<Rightarrow> bytes option \<Rightarrow> string option \<Rightarrow> CashRegisterState \<Rightarrow>
     string set \<Rightarrow> error + CashRegisterState \<times> string set" where
  "verifyGroup c grp rv k prevStartReceiptJWS crs used =
     (case previousReceipt c (lastReceiptJWS crs) of
        Inl e \<Rightarrow> Inl e
      | Inr pobj \<Rightarrow>
          (case verifyGroup_loop c rv k prevStartReceiptJWS
                  \<lparr>cashRegisterState = crs, usedReceiptIds = used,
                   prev = lastReceiptJWS crs, prevObj = pobj\<rparr> grp of
             Inl e \<Rightarrow> Inl e
           | Inr v \<Rightarrow> Inr ((cashRegisterState v)\<lparr>lastReceiptJWS := prev v\<rparr>, usedReceiptIds v)))"

subsection \<open>verifyGroupsWithVerifiers\<close>

fun verifyGroupsWithVerifiers ::
    "env \<Rightarrow> (string list \<times> verifier) list \<Rightarrow> bytes option \<Rightarrow> string option \<Rightarrow>
     CashRegisterState \<Rightarrow> string set \<Rightarrow> error + CashRegisterState \<times> string set" where
  "verifyGroupsWithVerifiers c [] k prevStart rState usedRecIds = Inr (rState, usedRecIds)"
| "verifyGroupsWithVerifiers c ((recs, rv) # groups) k prevStart rState usedRecIds =
     (case verifyGroup c recs rv k prevStart rState usedRecIds of
        Inl e \<Rightarrow> Inl e
      | Inr (rState', usedRecIds') \<Rightarrow>
          verifyGroupsWithVerifiers c groups k prevStart rState' usedRecIds')"

definition verifyGroupsWithVerifiersTuple ::
    "env \<Rightarrow> (string list \<times> verifier) list \<times> bytes option \<times> string option \<times>
       CashRegisterState \<times> string set \<Rightarrow> error + CashRegisterState \<times> string set" where
  "verifyGroupsWithVerifiersTuple c args =
     (case args of (groups, k, prevStart, rState, usedRecIds) \<Rightarrow>
        verifyGroupsWithVerifiers c groups k prevStart rState usedRecIds)"

subsection \<open>updateUsedReceiptIds\<close>

text \<open>
  The sets are visited in order. Within one set the identifiers are distinct, so the
  exception is raised at the first set that shares an identifier with the ones seen
  before it; which of the shared identifiers it names depends on the iteration order of
  the set, given by \<open>firstSeen\<close>.
\<close>

fun updateUsedReceiptIds_loop :: "env \<Rightarrow> string set \<Rightarrow> string set list \<Rightarrow> error + string set" where
  "updateUsedReceiptIds_loop c seen [] = Inr seen"
| "updateUsedReceiptIds_loop c seen (rids # rest) =
     (if seen \<inter> rids \<noteq> {} then Inl (DuplicateReceiptIdException (firstSeen c (seen \<inter> rids)))
      else updateUsedReceiptIds_loop c (seen \<union> rids) rest)"

definition updateUsedReceiptIds :: "env \<Rightarrow> string set list \<Rightarrow> string set \<Rightarrow> error + string set" where
  "updateUsedReceiptIds c outUsedRecIds usedRecIds =
     updateUsedReceiptIds_loop c {} (usedRecIds # outUsedRecIds)"

subsection \<open>packageChunkWithVerifiers, getChunksForProcs\<close>

type_synonym dep_group = "string list \<times> certificate option \<times> certificate list"

fun packageChunk_loop ::
    "env \<Rightarrow> keyStore \<Rightarrow> dep_group list \<Rightarrow> error + (string list \<times> verifier) list" where
  "packageChunk_loop c ks [] = Inr []"
| "packageChunk_loop c ks ((recs, cert, chain) # rest) =
     (case cert of
        None \<Rightarrow> Inl NoCertificateGivenException
      | Some ce \<Rightarrow>
          (case verifyCert c ce chain ks of
             Inl e \<Rightarrow> Inl e
           | Inr u \<Rightarrow>
               (case packageChunk_loop c ks rest of
                  Inl e \<Rightarrow> Inl e
                | Inr groupsWithVerifiers \<Rightarrow>
                    Inr ((recs, verifierFromCert c ce) # groupsWithVerifiers))))"

definition packageChunkWithVerifiers ::
    "env \<Rightarrow> dep_group list \<Rightarrow> keyStore \<Rightarrow> error + (string list \<times> verifier) list" where
  "packageChunkWithVerifiers c chunk ks =
     (case chunk of
        [(recs, cert, chain)] \<Rightarrow>
          (case cert of
             None \<Rightarrow> Inr [(recs, verifierFromKeyStore c ks)]
           | Some ce \<Rightarrow>
               (case verifyCert c ce chain ks of
                  Inl e \<Rightarrow> Inl e
                | Inr u \<Rightarrow> Inr [(recs, verifierFromCert c ce)]))
      | _ \<Rightarrow> packageChunk_loop c ks chunk)"

fun getChunksForProcs_loop :: "'a list \<Rightarrow> 'a list \<Rightarrow> int \<Rightarrow> 'a list list" where
  "getChunksForProcs_loop ret [] nprocs = (if length ret > 0 then [ret] else [])"
| "getChunksForProcs_loop ret (chunk # rest) nprocs =
     (if int (length (ret @ [chunk])) \<ge> nprocs
      then (ret @ [chunk]) # getChunksForProcs_loop [] rest nprocs
      else getChunksForProcs_loop (ret @ [chunk]) rest nprocs)"

definition getChunksForProcs :: "'a list \<Rightarrow> int \<Rightarrow> 'a list list" where
  "getChunksForProcs allChunks nprocs = getChunksForProcs_loop [] allChunks nprocs"

subsection \<open>prepareVerificationTuples\<close>

text \<open>
  Modelled from the spec: \<open>CashRegisterState.fromDEPGroup\<close> is not part of the
  sources at hand. The projected state is computed by a cheap local pass that applies
  only the turnover delta and updates the last receipt JWS to the final JWS of the
  group. The turnover delta of a receipt is the one \<open>verifyGroup\<close> applies: with a
  key, the rounded sum of every receipt that is not a dummy.
\<close>

fun turnoverDelta :: "env \<Rightarrow> string list \<Rightarrow> error + int" where
  "turnoverDelta c [] = Inr 0"
| "turnoverDelta c (cr # rest) =
     (case fromJWSString c (expandDEPReceipt c cr) of
        Inl e \<Rightarrow> Inl e
      | Inr (ro, algorithmPrefix) \<Rightarrow>
          (case turnoverDelta c rest of
             Inl e \<Rightarrow> Inl e
           | Inr d \<Rightarrow>
               Inr ((if isDummy ro then 0
                     else py_round ((sumA ro + sumB ro + sumC ro + sumD ro + sumE ro) * 100)) + d)))"

definition fromDEPGroup ::
    "env \<Rightarrow> CashRegisterState \<Rightarrow> string list \<Rightarrow> bytes option \<Rightarrow> error + CashRegisterState" where
  "fromDEPGroup c old grp k =
     (if grp = [] then Inr old
      else (case (if truthy k then turnoverDelta c grp else Inr 0) of
              Inl e \<Rightarrow> Inl e
            | Inr d \<Rightarrow>
                Inr (old\<lparr>lastReceiptJWS := Some (expandDEPReceipt c (last grp)),
                         lastTurnoverCounter := lastTurnoverCounter old + d\<rparr>)))"

fun fromDEPGroups ::
    "env \<Rightarrow> bytes option \<Rightarrow> CashRegisterState \<Rightarrow> (string list \<times> verifier) list \<Rightarrow>
     error + CashRegisterState" where
  "fromDEPGroups c k pkgRState [] = Inr pkgRState"
| "fromDEPGroups c k pkgRState ((grp, rv) # rest) =
     (case fromDEPGroup c pkgRState grp k of
        Inl e \<Rightarrow> Inl e
      | Inr pkgRState' \<Rightarrow> fromDEPGroups c k pkgRState' rest)"

fun pkgRStates_loop ::
    "env \<Rightarrow> bytes option \<Rightarrow> CashRegisterState \<Rightarrow> (string list \<times> verifier) list list \<Rightarrow>
     error + CashRegisterState list" where
  "pkgRStates_loop c k pkgRState [] = Inr []"
| "pkgRStates_loop c k pkgRState (pkg # rest) =
     (case fromDEPGroups c k pkgRState pkg of
        Inl e \<Rightarrow> Inl e
      | Inr pkgRState' \<Rightarrow>
          (case pkgRStates_loop c k pkgRState' rest of
             Inl e \<Rightarrow> Inl e
           | Inr pkgRStates \<Rightarrow> Inr (pkgRState' # pkgRStates)))"

definition prepareVerificationTuples ::
    "env \<Rightarrow> (string list \<times> verifier) list list \<Rightarrow> bytes option \<Rightarrow> string option \<Rightarrow>
     CashRegisterState \<Rightarrow>
     error + ((string list \<times> verifier) list \<times> bytes option \<times> string option \<times>
              CashRegisterState \<times> string set) list" where
  "prepareVerificationTuples c chunksWithVerifiers k prevStartJWS cashregState =
     (let npkgs = length chunksWithVerifiers
      in case pkgRStates_loop c k cashregState chunksWithVerifiers of
           Inl e \<Rightarrow> Inl e
         | Inr pkgRStates \<Rightarrow>
             Inr (zip chunksWithVerifiers
                   (zip (replicate npkgs k)
                     (zip (replicate npkgs prevStartJWS)
                       (zip (butlast (cashregState # pkgRStates)) (replicate npkgs {}))))))"

subsection \<open>verifyParsedDEP\<close>

text \<open>
  The results of one round of packages, as \<open>res.get()\<close> hands them over: the list of
  the results of the packages, or the exception of the first package that raised.
\<close>

fun sequence_results :: "(error + 'a) list \<Rightarrow> error + 'a list" where
  "sequence_results [] = Inr []"
| "sequence_results (x # xs) =
     (case x of
        Inl e \<Rightarrow> Inl e
      | Inr y \<Rightarrow> (case sequence_results xs of Inl e \<Rightarrow> Inl e | Inr ys \<Rightarrow> Inr (y # ys)))"

text \<open>
  Lines 675 to 677 and 689 to 691: the results of a round are unzipped, the used IDs
  merged, and the register state of the last package taken.
\<close>

definition collectResults ::
    "env \<Rightarrow> error + (CashRegisterState \<times> string set) list \<Rightarrow> string set \<Rightarrow>
     error + CashRegisterState \<times> string set" where
  "collectResults c res usedRecIds =
     (case res of
        Inl e \<Rightarrow> Inl e
      | Inr outs \<Rightarrow>
          if outs = [] then Inl ValueError
          else (case updateUsedReceiptIds c (map snd outs) usedRecIds of
                  Inl e \<Rightarrow> Inl e
                | Inr usedRecIds' \<Rightarrow> Inr (fst (last outs), usedRecIds')))"

fun packageChunks ::
    "env \<Rightarrow> keyStore \<Rightarrow> dep_group list list \<Rightarrow> error + (string list \<times> verifier) list list" where
  "packageChunks c ks [] = Inr []"
| "packageChunks c ks (chunk # rest) =
     (case packageChunkWithVerifiers c chunk ks of
        Inl e \<Rightarrow> Inl e
      | Inr pkg \<Rightarrow>
          (case packageChunks c ks rest of Inl e \<Rightarrow> Inl e | Inr pkgs \<Rightarrow> Inr (pkg # pkgs)))"

text \<open>
  The loop over the rounds of chunks. \<open>res\<close> holds the results of the round before, if
  any; they are collected after the packages of the next round are built, or after the
  loop. Without a pool the packages run in the loop itself and an exception is raised
  there; with a pool it is raised when the results are collected.
\<close>

fun verifyParsedDEP_loop ::
    "env \<Rightarrow> keyStore \<Rightarrow> bytes option \<Rightarrow> string option \<Rightarrow> bool \<Rightarrow> CashRegisterState \<Rightarrow>
     string set \<Rightarrow> (error + (CashRegisterState \<times> string set) list) option \<Rightarrow>
     dep_group list list list \<Rightarrow> error + CashRegisterState \<times> string set" where
  "verifyParsedDEP_loop c ks k prevStart pool rState usedRecIds res [] =
     (case res of
        None \<Rightarrow> Inl AttributeError
      | Some r \<Rightarrow> collectResults c r usedRecIds)"
| "verifyParsedDEP_loop c ks k prevStart pool rState usedRecIds res (chunks # rest) =
     (case packageChunks c ks chunks of
        Inl e \<Rightarrow> Inl e
      | Inr pkgs \<Rightarrow>
          (case (case res of
                   None \<Rightarrow> Inr (rState, usedRecIds)
                 | Some r \<Rightarrow> collectResults c r usedRecIds) of
             Inl e \<Rightarrow> Inl e
           | Inr (rState', usedRecIds') \<Rightarrow>
               (case prepareVerificationTuples c pkgs k prevStart rState' of
                  Inl e \<Rightarrow> Inl e
                | Inr wargs \<Rightarrow>
                    (case sequence_results (map (verifyGroupsWithVerifiersTuple c) wargs) of
                       Inl e \<Rightarrow>
                         if pool
                         then verifyParsedDEP_loop c ks k prevStart pool rState' usedRecIds'
                                (Some (Inl e)) rest
                         else Inl e
                     | Inr outresults \<Rightarrow>
                         verifyParsedDEP_loop c ks k prevStart pool rState' usedRecIds'
                           (Some (Inr outresults)) rest))))"

text \<open>
  \<open>verifyParsedDEP\<close>, given the chunks the parser yields. \<open>pool\<close> tells whether a
  process pool was passed.
\<close>

definition verifyParsedDEP ::
    "env \<Rightarrow> dep_group list list \<Rightarrow> keyStore \<Rightarrow> bytes option \<Rightarrow> ClusterState option \<Rightarrow>
     int option \<Rightarrow> bool \<Rightarrow> int \<Rightarrow> error + ClusterState" where
  "verifyParsedDEP c parsed ks k state cashRegisterIdx pool nprocs =
     (let st = (case state of None \<Rightarrow> ClusterState_new | Some s \<Rightarrow> s)
      in case getCashRegisterInfo c st cashRegisterIdx of
           Inl e \<Rightarrow> Inl e
         | Inr (prevStart, rState, usedRecIds) \<Rightarrow>
             (case verifyParsedDEP_loop c ks k prevStart pool rState usedRecIds None
                     (getChunksForProcs parsed nprocs) of
                Inl e \<Rightarrow> Inl e
              | Inr (rState', usedRecIds') \<Rightarrow>
                  Inr (updateCashRegisterInfo c st cashRegisterIdx rState' usedRecIds')))"

subsection \<open>verifyDEP\<close>

text \<open>
  The variables the loops of \<open>verifyDEP\<close> carry: \<open>one_group\<close> (None, True or False),
  the register state and the used IDs.
\<close>

record dep_vars =
  one_group :: "bool option"
  rState :: CashRegisterState
  usedRecIds :: "string set"

definition verifyDEP_group ::
    "env \<Rightarrow> keyStore \<Rightarrow> bytes option \<Rightarrow> string option \<Rightarrow> dep_vars \<Rightarrow> dep_group \<Rightarrow> error + dep_vars" where
  "verifyDEP_group c ks k prevStart d g =
     (case g of (recs, cert, chain) \<Rightarrow>
        if one_group d = Some True then Inl NoCertificateGivenException
        else (case (case cert of
                      None \<Rightarrow>
                        if one_group d = Some False then Inl NoCertificateGivenException
                        else Inr (verifierFromKeyStore c ks, True)
                    | Some ce \<Rightarrow>
                        (case verifyCert c ce chain ks of
                           Inl e \<Rightarrow> Inl e
                         | Inr u \<Rightarrow> Inr (verifierFromCert c ce, False))) of
                Inl e \<Rightarrow> Inl e
              | Inr (rv, og) \<Rightarrow>
                  (case verifyGroup c recs rv k prevStart (rState d) (usedRecIds d) of
                     Inl e \<Rightarrow> Inl e
                   | Inr (rState', usedRecIds') \<Rightarrow>
                       Inr \<lparr>one_group = Some og, rState = rState', usedRecIds = usedRecIds'\<rparr>)))"

fun verifyDEP_chunk ::
    "env \<Rightarrow> keyStore \<Rightarrow> bytes option \<Rightarrow> string option \<Rightarrow> dep_vars \<Rightarrow> dep_group list \<Rightarrow> error + dep_vars" where
  "verifyDEP_chunk c ks k prevStart d [] = Inr d"
| "verifyDEP_chunk c ks k prevStart d (g # rest) =
     (case verifyDEP_group c ks k prevStart d g of
        Inl e \<Rightarrow> Inl e
      | Inr d' \<Rightarrow> verifyDEP_chunk c ks k prevStart d' rest)"

fun verifyDEP_loop ::
    "env \<Rightarrow> keyStore \<Rightarrow> bytes option \<Rightarrow> string option \<Rightarrow> dep_vars \<Rightarrow> dep_group list list \<Rightarrow>
     error + dep_vars" where
  "verifyDEP_loop c ks k prevStart d [] = Inr d"
| "verifyDEP_loop c ks k prevStart d (chunk # rest) =
     (if length chunk < 1 then Inl ThisIsABugException
      else (case verifyDEP_chunk c ks k prevStart d chunk of
              Inl e \<Rightarrow> Inl e
            | Inr d' \<Rightarrow> verifyDEP_loop c ks k prevStart d' rest))"

text \<open>\<open>verifyDEP\<close>, given the chunks the parser yields in whole-file mode.\<close>

definition verifyDEP ::
    "env \<Rightarrow> dep_group list list \<Rightarrow> keyStore \<Rightarrow> bytes option \<Rightarrow> ClusterState option \<Rightarrow>
     int option \<Rightarrow> error + ClusterState" where
  "verifyDEP c dep ks k state cashRegisterIdx =
     (let st = (case state of None \<Rightarrow> ClusterState_new | Some s \<Rightarrow> s)
      in case getCashRegisterInfo c st cashRegisterIdx of
           Inl e \<Rightarrow> Inl e
         | Inr (prevStart, rState0, usedRecIds0) \<Rightarrow>
             (case verifyDEP_loop c ks k prevStart
                     \<lparr>one_group = None, rState = rState0, usedRecIds = usedRecIds0\<rparr> dep of
                Inl e \<Rightarrow> Inl e
              | Inr d \<Rightarrow>
                  Inr (updateCashRegisterInfo c st cashRegisterIdx (rState d) (usedRecIds d))))"

section \<open>Example data\<close>

text \<open>
  A small register for the examples: JWS strings of eight characters, a stand-in hash
  that pads or cuts its input to 32 bytes, a stand-in block encryption, and a base64
  stand-in that reads bytes as characters. With them the chaining value of a receipt
  is the JWS string before it, and that of the first receipt is the register ID.
\<close>

definition demo_receipt :: "string \<Rightarrow> rat \<Rightarrow> string \<Rightarrow> bool \<Rightarrow> string \<Rightarrow> receipt" where
  "demo_receipt rid amount chainValue broken enc =
     \<lparr>zda = ''AT0'', registerId = ''KASSE-01'', receiptId = rid,
      sumA = amount, sumB = 0, sumC = 0, sumD = 0, sumE = 0,
      encTurnoverCounter = enc, previousChain = chainValue,
      isDummy = False, isReversal = False, isSignedBroken = broken\<rparr>"

definition demo_receipts :: "(string \<times> receipt) list" where
  "demo_receipts =
     [(''receipt1'', demo_receipt ''1'' 0 ''KASSE-01'' False []),
      (''receipt2'', demo_receipt ''2'' 100 ''receipt1'' True []),
      (''receipt3'', demo_receipt ''3'' 25 ''receipt2'' False []),
      (''receipt4'', demo_receipt ''4'' 0 ''receipt3'' False []),
      (''receipt5'', demo_receipt ''5'' 50 ''receipt4'' False [])]"

definition demo_verifier :: verifier where
  "demo_verifier r =
     (if r = ''receipt2'' then SignatureSystemFailedException else SignatureValid)"

definition demo_key :: bytes where
  "demo_key = replicate 32 7"

definition demo_env :: env where
  "demo_env =
     \<lparr>sha256 = (\<lambda>bs. take 32 (bs @ replicate 32 0)),
      aes256_block = (\<lambda>k b. b + of_nat (length k)),
      b64encode = map (\<lambda>b. char_of (unat b)),
      b64decode = map of_char,
      expandDEPReceipt = (\<lambda>cr. cr),
      parseJWS = (\<lambda>s. case map_of demo_receipts s of
                         None \<Rightarrow> Inl (CollaboratorError ''MalformedReceiptException'')
                       | Some ro \<Rightarrow> Inr (ro, ''R1'')),
      numSerialToKeyId = (\<lambda>n. [char_of n]),
      certFingerprint = content,
      certSignedBy = (\<lambda>x y. serial y = serial x + 1),
      verifierFromKeyStore = (\<lambda>ks. demo_verifier),
      verifierFromCert = (\<lambda>ce. demo_verifier),
      firstSeen = (\<lambda>S. ''?''),
      getCashRegisterInfo =
        (\<lambda>st idx. Inr (None, CashRegisterState_new, clusterUsedReceiptIds st)),
      updateCashRegisterInfo =
        (\<lambda>st idx rs used.
           \<lparr>cashRegisters = cashRegisters st @ [rs], clusterUsedReceiptIds = used\<rparr>)\<rparr>"

text \<open>
  A chain of three certificates, each signed by the next; only the last one is in the
  key store.
\<close>

definition demo_leaf :: certificate where
  "demo_leaf = \<lparr>serial = 1, content = ''leaf''\<rparr>"

definition demo_intermediate :: certificate where
  "demo_intermediate = \<lparr>serial = 2, content = ''intermediate''\<rparr>"

definition demo_root :: certificate where
  "demo_root = \<lparr>serial = 3, content = ''root''\<rparr>"

definition demo_keyStore :: keyStore where
  "demo_keyStore kid = (if kid = [char_of (3::int)] then Some demo_root else None)"

text \<open>The variables of the loop after the first receipt of the example register.\<close>

definition demo_state1 :: CashRegisterState where
  "demo_state1 =
     \<lparr>startReceiptJWS = Some ''receipt1'', lastReceiptJWS = None, lastTurnoverCounter = 0,
      needRestoreReceipt = False\<rparr>"

definition demo_vars1 :: loop_vars where
  "demo_vars1 =
     \<lparr>cashRegisterState = demo_state1, usedReceiptIds = {''1''}, prev = Some ''receipt1'',
      prevObj = Some (demo_receipt ''1'' 0 ''KASSE-01'' False [])\<rparr>"


text \<open>
  The receipt ID of an entry of a group, as the parser reads it (the empty string for
  an entry that does not parse).
\<close>

definition receiptIdOf :: "env \<Rightarrow> string \<Rightarrow> string" where
  "receiptIdOf c cr =
     (case fromJWSString c (expandDEPReceipt c cr) of
        Inl e \<Rightarrow> []
      | Inr (ro, algorithmPrefix) \<Rightarrow> receiptId ro)"

section \<open>The chaining value of R1\<close>

text \<open>
  C7: for every receipt and every previous-JWS argument, \<open>R1.chain\<close> returns the first
  8 bytes (the number \<open>chainBytes\<close>) of the SHA-256 of the UTF-8 encoding of the
  previous JWS string when one is present, that is, when the argument is a string that
  is not empty, and the first 8 bytes of the SHA-256 of the UTF-8 encoding of the
  receipt's register ID when it is absent (None, or the empty string, which Python
  takes as absent).
\<close>

theorem R1_chain_spec:
  "(p \<noteq> [] \<longrightarrow> R1_chain c ro (Some p) = take chainBytes (sha256 c (encode_utf8 p))) \<and>
   R1_chain c ro (Some []) = take chainBytes (sha256 c (encode_utf8 (registerId ro))) \<and>
   R1_chain c ro None = take chainBytes (sha256 c (encode_utf8 (registerId ro))) \<and>
   chainBytes = 8 \<and> length (R1_chain c ro q) \<le> 8"
  by (simp add: R1_chain_def chainBytes_def split: option.split)

theorem R1_chain_spec_witness:
  "''receipt1'' \<noteq> [] \<and>
   R1_chain demo_env (demo_receipt ''2'' 100 ''receipt1'' True []) (Some ''receipt1'') =
     take chainBytes (sha256 demo_env (encode_utf8 ''receipt1'')) \<and>
   R1_chain demo_env (demo_receipt ''2'' 100 ''receipt1'' True []) (Some ''receipt1'') =
     [114, 101, 99, 101, 105, 112, 116, 49]"
proof -
  have ne: "''receipt1'' \<noteq> []" by simp
  have "R1_chain demo_env (demo_receipt ''2'' 100 ''receipt1'' True []) (Some ''receipt1'') =
          take chainBytes (sha256 demo_env (encode_utf8 ''receipt1''))"
    using R1_chain_spec [of "''receipt1''" demo_env "demo_receipt ''2'' 100 ''receipt1'' True []" None]
      ne by blast
  moreover have "take chainBytes (sha256 demo_env (encode_utf8 ''receipt1'')) =
          [114, 101, 99, 101, 105, 112, 116, 49]"
    by code_simp
  ultimately show ?thesis using ne by simp
qed

section \<open>The turnover counter of R1: encryption and decryption\<close>

lemma length_be_bytes: "length (be_bytes n x) = n"
  by (induction n arbitrary: x) auto

lemma be_int_snoc: "be_int (bs @ [b]) = be_int bs * 256 + uint b"
  by (simp add: be_int_def)

lemma be_int_be_bytes: "be_int (be_bytes n x) = x mod 256 ^ n"
proof (induction n arbitrary: x)
  case 0
  show ?case by (simp add: be_int_def)
next
  case (Suc n)
  have "be_int (be_bytes (Suc n) x) = (x div 256) mod 256 ^ n * 256 + x mod 256"
    by (simp add: be_int_snoc Suc uint_word_of_int)
  also have "\<dots> = x mod 256 ^ Suc n"
    using zmod_zmult2_eq [of "256 ^ n" x 256] by simp
  finally show ?case .
qed

lemma length_ctr_keystream: "length (ctr_keystream c k iv n) = n"
proof -
  have "length (concat (map (\<lambda>i. be_bytes 16
            (uint (aes256_block c k (word_of_int (be_int iv) + of_nat i))))
          [0 ..< (n + 15) div 16])) = 16 * ((n + 15) div 16)"
    by (simp add: length_concat comp_def length_be_bytes sum_list_triv)
  moreover have "n \<le> 16 * ((n + 15) div 16)" by presburger
  ultimately show ?thesis by (simp add: ctr_keystream_def)
qed

lemma xor_twice: "length ks = length ds \<Longrightarrow> map2 (XOR) (map2 (XOR) ds ks) ks = (ds :: bytes)"
proof (induction ds arbitrary: ks)
  case Nil
  then show ?case by simp
next
  case (Cons d ds)
  then obtain k ks' where "ks = k # ks'" by (cases ks) auto
  with Cons show ?case by (simp add: xor.assoc)
qed

lemma aes256ctr_involution:
  "aes256ctr c iv k dat = Inr ct \<Longrightarrow> aes256ctr c iv k ct = Inr dat"
  by (auto simp: aes256ctr_def length_ctr_keystream xor_twice split: if_splits)

lemma int_from_bytes_be_bytes:
  assumes "0 < n" "- (2 ^ (8 * n - 1)) \<le> x" "x < 2 ^ (8 * n - 1)"
  shows "int_from_bytes (be_bytes n (x mod 2 ^ (8 * n))) = x"
proof -
  have p: "(256::int) ^ n = 2 ^ (8 * n)"
    by (simp add: power_mult)
  have h: "(2::int) ^ (8 * n) = 2 * 2 ^ (8 * n - 1)"
    using assms(1) by (metis Suc_pred' mult_pos_pos power_Suc zero_less_numeral)
  have u: "be_int (be_bytes n (x mod 2 ^ (8 * n))) = x mod 2 ^ (8 * n)"
    by (simp add: be_int_be_bytes p)
  show ?thesis
  proof (cases "0 \<le> x")
    case True
    then have "x mod 2 ^ (8 * n) = x" using assms(3) h by simp
    with u have v: "be_int (be_bytes n (x mod 2 ^ (8 * n))) = x" by simp
    show ?thesis unfolding int_from_bytes_def Let_def v length_be_bytes
      using assms True by simp
  next
    case False
    then have "x mod 2 ^ (8 * n) = x + 2 ^ (8 * n)"
      using assms(2) h by (smt (verit) mod_pos_pos_trivial mod_add_self2)
    with u have v: "be_int (be_bytes n (x mod 2 ^ (8 * n))) = x + 2 ^ (8 * n)" by simp
    show ?thesis unfolding int_from_bytes_def Let_def v length_be_bytes
      using assms False h by simp
  qed
qed

text \<open>
  C5: for every 32-byte key, every size from 5 to 16, every receipt (its register ID
  and receipt ID give the initial counter, at least 16 bytes of hash) and every
  integer that fits into that many bytes of signed big-endian two's complement,
  encrypting the turnover counter succeeds and decrypting the result with the same
  receipt and key returns the integer.
\<close>

theorem R1_turnover_roundtrip:
  assumes "length k = 32" and "5 \<le> sz" and "sz \<le> 16"
    and "- (2 ^ (8 * sz - 1)) \<le> x" and "x < 2 ^ (8 * sz - 1)"
    and "16 \<le> length (sha256 c (encode_utf8 (registerId ro) @ encode_utf8 (receiptId ro)))"
  shows "\<exists>ct. R1_encryptTurnoverCounter c ro x k sz = Inr ct \<and>
              R1_decryptTurnoverCounter c ro ct k = Inr x"
proof -
  have sz: "0 < sz" using assms(2) by simp
  have iv: "length (R1_iv c ro) = 16" using assms(6) by (simp add: R1_iv_def)
  define pt where "pt = be_bytes sz (x mod 2 ^ (8 * sz))"
  have tb: "int_to_bytes x sz = Inr pt"
    using sz assms(4,5) by (simp add: int_to_bytes_def pt_def)
  obtain ct where ct: "aes256ctr c (R1_iv c ro) k pt = Inr ct"
    using assms(1) iv by (simp add: aes256ctr_def)
  have enc: "R1_encryptTurnoverCounter c ro x k sz = Inr ct"
    by (simp add: R1_encryptTurnoverCounter_def tb ct)
  have "aes256ctr c (R1_iv c ro) k ct = Inr pt"
    using ct by (rule aes256ctr_involution)
  then have dec: "R1_decryptTurnoverCounter c ro ct k = Inr (int_from_bytes pt)"
    by (simp add: R1_decryptTurnoverCounter_def)
  have "int_from_bytes pt = x"
    unfolding pt_def using sz assms(4,5) by (rule int_from_bytes_be_bytes)
  with enc dec show ?thesis by simp
qed

theorem R1_turnover_roundtrip_witness:
  "length demo_key = 32 \<and> (5::nat) \<le> 8 \<and> (8::nat) \<le> 16 \<and>
   - (2 ^ (8 * 8 - 1)) \<le> (17500::int) \<and> (17500::int) < 2 ^ (8 * 8 - 1) \<and>
   (\<exists>ct. R1_encryptTurnoverCounter demo_env (demo_receipt ''2'' 100 ''receipt1'' True [])
            17500 demo_key 8 = Inr ct \<and>
         R1_decryptTurnoverCounter demo_env (demo_receipt ''2'' 100 ''receipt1'' True [])
            ct demo_key = Inr 17500)"
proof -
  have k: "length demo_key = 32" by (simp add: demo_key_def)
  have lo: "- (2 ^ (8 * 8 - 1)) \<le> (17500::int)" by simp
  have hi: "(17500::int) < 2 ^ (8 * 8 - 1)" by simp
  have h: "16 \<le> length (sha256 demo_env
             (encode_utf8 (registerId (demo_receipt ''2'' 100 ''receipt1'' True [])) @
              encode_utf8 (receiptId (demo_receipt ''2'' 100 ''receipt1'' True []))))"
    by (simp add: demo_env_def)
  have "\<exists>ct. R1_encryptTurnoverCounter demo_env (demo_receipt ''2'' 100 ''receipt1'' True [])
            17500 demo_key 8 = Inr ct \<and>
         R1_decryptTurnoverCounter demo_env (demo_receipt ''2'' 100 ''receipt1'' True [])
            ct demo_key = Inr 17500"
    using R1_turnover_roundtrip [OF k _ _ lo hi h] by simp
  with k lo hi show ?thesis by simp
qed

section \<open>The certificate chain\<close>

lemma verifyCert_loop_skip:
  "i < length (p # xs) \<Longrightarrow>
   \<forall>j<i. ks (numSerialToKeyId c (serial ((p # xs) ! j))) = None \<and>
         certSignedBy c ((p # xs) ! j) ((p # xs) ! Suc j) \<Longrightarrow>
   verifyCert_loop c ks cert p xs = verifyCert_loop c ks cert ((p # xs) ! i) (drop i xs)"
proof (induction i arbitrary: p xs)
  case 0
  show ?case by simp
next
  case (Suc i)
  then obtain x xs' where xs: "xs = x # xs'" by (cases xs) auto
  have un: "ks (numSerialToKeyId c (serial p)) = None" and sg: "certSignedBy c p x"
    using Suc.prems(2) xs by auto
  have "verifyCert_loop c ks cert p xs = verifyCert_loop c ks cert x xs'"
    using un sg by (simp add: xs keyStoreLookup_def)
  also have "\<dots> = verifyCert_loop c ks cert ((x # xs') ! i) (drop i xs')"
  proof (rule Suc.IH)
    show "i < length (x # xs')" using Suc.prems(1) xs by simp
    show "\<forall>j<i. ks (numSerialToKeyId c (serial ((x # xs') ! j))) = None \<and>
         certSignedBy c ((x # xs') ! j) ((x # xs') ! Suc j)"
      using Suc.prems(2) xs by auto
  qed
  finally show ?case by (simp add: xs)
qed

text \<open>
  C9: \<open>verifyCert\<close> walks upward from the leaf certificate. Let position \<open>i\<close> of the
  list of the leaf and its chain be the first certificate that is in the key store or
  was not signed by the next one: every certificate before it is absent from the key
  store and signed by its successor. If that certificate is found in the key store,
  \<open>verifyCert\<close> returns normally when the stored fingerprint matches and raises
  CertificateSerialCollisionException when it differs. If it is not found and it was not
  signed by the next certificate, CertificateChainBrokenException is raised. If it is
  the topmost certificate and is not found, UntrustedCertificateException is raised.
\<close>

theorem verifyCert_walk:
  assumes "i < length (cert # chain)"
    and "\<forall>j<i. ks (numSerialToKeyId c (serial ((cert # chain) ! j))) = None \<and>
              certSignedBy c ((cert # chain) ! j) ((cert # chain) ! Suc j)"
  shows
   "(ks (numSerialToKeyId c (serial ((cert # chain) ! i))) = Some ksCert \<and>
       certFingerprint c ksCert = certFingerprint c ((cert # chain) ! i) \<longrightarrow>
       verifyCert c cert chain ks = Inr ()) \<and>
    (ks (numSerialToKeyId c (serial ((cert # chain) ! i))) = Some ksCert \<and>
       certFingerprint c ksCert \<noteq> certFingerprint c ((cert # chain) ! i) \<longrightarrow>
       verifyCert c cert chain ks =
         Inl (CertificateSerialCollisionException
                (numSerialToKeyId c (serial ((cert # chain) ! i)))
                (certFingerprint c ((cert # chain) ! i)) (certFingerprint c ksCert))) \<and>
    (ks (numSerialToKeyId c (serial ((cert # chain) ! i))) = None \<and>
       Suc i < length (cert # chain) \<and>
       \<not> certSignedBy c ((cert # chain) ! i) ((cert # chain) ! Suc i) \<longrightarrow>
       verifyCert c cert chain ks =
         Inl (CertificateChainBrokenException
                (numSerialToKeyId c (serial ((cert # chain) ! i)))
                (numSerialToKeyId c (serial ((cert # chain) ! Suc i))))) \<and>
    (ks (numSerialToKeyId c (serial ((cert # chain) ! i))) = None \<and>
       Suc i = length (cert # chain) \<longrightarrow>
       verifyCert c cert chain ks =
         Inl (UntrustedCertificateException (numSerialToKeyId c (serial cert))))"
proof -
  let ?p = "(cert # chain) ! i"
  have walk: "verifyCert c cert chain ks = verifyCert_loop c ks cert ?p (drop i chain)"
    unfolding verifyCert_def using assms by (rule verifyCert_loop_skip)
  show ?thesis
  proof (cases "drop i chain")
    case Nil
    then have "Suc i = length (cert # chain)" using assms(1) by simp
    then show ?thesis using walk Nil by (simp add: keyStoreLookup_def)
  next
    case (Cons y ys)
    then have lt: "Suc i < length (cert # chain)" by (metis drop_all leI length_Cons list.distinct(1) not_less_eq)
    have "y = (cert # chain) ! Suc i"
      using Cons by (metis hd_drop_conv_nth list.sel(1) lt nth_Cons_Suc length_Cons Suc_less_eq)
    then show ?thesis using walk Cons lt by (simp add: keyStoreLookup_def)
  qed
qed

theorem verifyCert_walk_witness:
  "verifyCert demo_env demo_leaf [demo_intermediate, demo_root] demo_keyStore = Inr ()"
proof -
  have i: "2 < length (demo_leaf # [demo_intermediate, demo_root])" by simp
  have un: "\<forall>j<2. demo_keyStore (numSerialToKeyId demo_env
                 (serial ((demo_leaf # [demo_intermediate, demo_root]) ! j))) = None \<and>
              certSignedBy demo_env ((demo_leaf # [demo_intermediate, demo_root]) ! j)
                ((demo_leaf # [demo_intermediate, demo_root]) ! Suc j)"
  proof (intro allI impI)
    fix j :: nat
    assume "j < 2"
    then have "j = 0 \<or> j = 1" by auto
    moreover have "demo_keyStore (numSerialToKeyId demo_env (serial demo_leaf)) = None"
      by code_simp
    moreover have "demo_keyStore (numSerialToKeyId demo_env (serial demo_intermediate)) = None"
      by code_simp
    moreover have "certSignedBy demo_env demo_leaf demo_intermediate" by code_simp
    moreover have "certSignedBy demo_env demo_intermediate demo_root" by code_simp
    ultimately show "demo_keyStore (numSerialToKeyId demo_env
                 (serial ((demo_leaf # [demo_intermediate, demo_root]) ! j))) = None \<and>
              certSignedBy demo_env ((demo_leaf # [demo_intermediate, demo_root]) ! j)
                ((demo_leaf # [demo_intermediate, demo_root]) ! Suc j)"
      by auto
  qed
  have a: "demo_keyStore (numSerialToKeyId demo_env
             (serial ((demo_leaf # [demo_intermediate, demo_root]) ! 2))) = Some demo_root"
    by code_simp
  have f: "certFingerprint demo_env demo_root =
           certFingerprint demo_env ((demo_leaf # [demo_intermediate, demo_root]) ! 2)"
    by code_simp
  show ?thesis
    using verifyCert_walk [OF i un, of demo_root] a f by blast
qed

section \<open>The loop of verifyGroup\<close>

lemma verifyReceipt_Inr:
  assumes "verifyReceipt c rv k ps v cr = Inr v'"
  obtains ro a crs1 prv pobj crs2 used crs3 where
    "checkSignature c rv v (expandDEPReceipt c cr) = Inr (ro, a, crs1)"
    "checkInitialReceipt c ps v crs1 (expandDEPReceipt c cr) ro = Inr (prv, pobj, crs2)"
    "checkAgainstPrevious pobj (usedReceiptIds v) ro = Inr used"
    "checkChain c ps crs2 (expandDEPReceipt c cr) ro prv a = Inr ()"
    "checkTurnoverCounter c k crs2 ro a = Inr crs3"
    "v' = \<lparr>cashRegisterState = crs3, usedReceiptIds = used,
           prev = Some (expandDEPReceipt c cr), prevObj = Some ro\<rparr>"
  using assms
  by (auto simp: verifyReceipt_def Let_def split: sum.splits prod.splits)


lemma checkInitialReceipt_Some:
  "prevObj v = Some po \<Longrightarrow> checkInitialReceipt c ps v crs r ro = Inr (prev v, Some po, crs)"
  by (simp add: checkInitialReceipt_def)








text \<open>
  C6: the chain check in \<open>verifyGroup\<close> compares the base64 encoding of the chaining
  value the algorithm computes from the current receipt and the previous JWS with the
  receipt's \<open>previousChain\<close> field. For a receipt that passed the checks before the
  chain check: on a mismatch the receipt raises
  InvalidChainingOnClusterInitialReceiptException when it is the start receipt of the
  register and a cluster previous-start JWS was supplied,
  InvalidChainingOnInitialReceiptException when it is the start receipt and none was
  supplied, and ChainingException otherwise; on a match the chain check raises nothing
  and the receipt goes on to the turnover counter.
\<close>

theorem checkChain_spec:
  assumes "checkSignature c rv v (expandDEPReceipt c cr) = Inr (ro, a, crs1)"
    and "checkInitialReceipt c ps v crs1 (expandDEPReceipt c cr) ro = Inr (prv, pobj, crs2)"
    and "checkAgainstPrevious pobj (usedReceiptIds v) ro = Inr used"
  shows
    "(b64encode c (algorithm_chain c a ro prv) \<noteq> previousChain ro \<and>
        startReceiptJWS crs2 = Some (expandDEPReceipt c cr) \<and> truthy ps \<longrightarrow>
        verifyReceipt c rv k ps v cr =
          Inl (InvalidChainingOnClusterInitialReceiptException (receiptId ro))) \<and>
     (b64encode c (algorithm_chain c a ro prv) \<noteq> previousChain ro \<and>
        startReceiptJWS crs2 = Some (expandDEPReceipt c cr) \<and> \<not> truthy ps \<longrightarrow>
        verifyReceipt c rv k ps v cr =
          Inl (InvalidChainingOnInitialReceiptException (receiptId ro))) \<and>
     (b64encode c (algorithm_chain c a ro prv) \<noteq> previousChain ro \<and>
        startReceiptJWS crs2 \<noteq> Some (expandDEPReceipt c cr) \<longrightarrow>
        verifyReceipt c rv k ps v cr = Inl (ChainingException (receiptId ro) prv)) \<and>
     (b64encode c (algorithm_chain c a ro prv) = previousChain ro \<longrightarrow>
        verifyChain c ro prv a = Inr () \<and>
        checkChain c ps crs2 (expandDEPReceipt c cr) ro prv a = Inr () \<and>
        verifyReceipt c rv k ps v cr =
          (case checkTurnoverCounter c k crs2 ro a of
             Inl e \<Rightarrow> Inl e
           | Inr crs3 \<Rightarrow>
               Inr \<lparr>cashRegisterState = crs3, usedReceiptIds = used,
                    prev = Some (expandDEPReceipt c cr), prevObj = Some ro\<rparr>))"
  using assms
  by (simp add: verifyReceipt_def checkChain_def verifyChain_def Let_def)

theorem checkChain_spec_witness:
  "verifyReceipt demo_env demo_verifier None None demo_vars1 ''receipt3'' =
     Inl (ChainingException ''3'' (Some ''receipt1'')) \<and>
   checkChain demo_env None demo_state1 (expandDEPReceipt demo_env ''receipt2'')
     (demo_receipt ''2'' 100 ''receipt1'' True []) (Some ''receipt1'') R1 = Inr ()"
proof -
  let ?r1 = "demo_receipt ''1'' 0 ''KASSE-01'' False []"
  let ?r2 = "demo_receipt ''2'' 100 ''receipt1'' True []"
  let ?r3 = "demo_receipt ''3'' 25 ''receipt2'' False []"
  have s3: "checkSignature demo_env demo_verifier demo_vars1
              (expandDEPReceipt demo_env ''receipt3'') = Inr (?r3, R1, demo_state1)"
    by code_simp
  have i3: "checkInitialReceipt demo_env None demo_vars1 demo_state1
              (expandDEPReceipt demo_env ''receipt3'') ?r3 =
            Inr (Some ''receipt1'', Some ?r1, demo_state1)"
    by code_simp
  have p3: "checkAgainstPrevious (Some ?r1) (usedReceiptIds demo_vars1) ?r3 = Inr {''3'', ''1''}"
    by code_simp
  have m3: "b64encode demo_env (algorithm_chain demo_env R1 ?r3 (Some ''receipt1'')) \<noteq>
            previousChain ?r3"
    by code_simp
  have n3: "startReceiptJWS demo_state1 \<noteq> Some (expandDEPReceipt demo_env ''receipt3'')"
    by code_simp
  have A: "verifyReceipt demo_env demo_verifier None None demo_vars1 ''receipt3'' =
             Inl (ChainingException ''3'' (Some ''receipt1''))"
  proof -
    have "verifyReceipt demo_env demo_verifier None None demo_vars1 ''receipt3'' =
             Inl (ChainingException (receiptId ?r3) (Some ''receipt1''))"
      using checkChain_spec [OF s3 i3 p3, where k = None] m3 n3 by blast
    moreover have "receiptId ?r3 = ''3''" by code_simp
    ultimately show ?thesis by simp
  qed
  have s2: "checkSignature demo_env demo_verifier demo_vars1
              (expandDEPReceipt demo_env ''receipt2'') = Inr (?r2, R1, demo_state1)"
    by code_simp
  have i2: "checkInitialReceipt demo_env None demo_vars1 demo_state1
              (expandDEPReceipt demo_env ''receipt2'') ?r2 =
            Inr (Some ''receipt1'', Some ?r1, demo_state1)"
    by code_simp
  have p2: "checkAgainstPrevious (Some ?r1) (usedReceiptIds demo_vars1) ?r2 = Inr {''2'', ''1''}"
    by code_simp
  have m2: "b64encode demo_env (algorithm_chain demo_env R1 ?r2 (Some ''receipt1'')) =
            previousChain ?r2"
    by code_simp
  have B: "checkChain demo_env None demo_state1 (expandDEPReceipt demo_env ''receipt2'')
             ?r2 (Some ''receipt1'') R1 = Inr ()"
    using checkChain_spec [OF s2 i2 p2, where k = None] m2 by blast
  from A B show ?thesis by simp
qed






section \<open>The restore receipt after a failure of the signature system\<close>







section \<open>Receipt IDs\<close>

lemma checkSignature_parse:
  "checkSignature c rv v r = Inr (ro, a, crs1) \<Longrightarrow> \<exists>pfx. fromJWSString c r = Inr (ro, pfx)"
  by (auto simp: checkSignature_def verifyJWS_def
      split: verify_result.splits option.splits if_splits sum.splits prod.splits
             signature_status.splits)

lemma checkInitialReceipt_pobj:
  "checkInitialReceipt c ps v crs r ro = Inr (prv, pobj, crs2) \<Longrightarrow>
   prevObj v \<noteq> None \<or> truthy ps \<Longrightarrow> pobj \<noteq> None"
proof (cases "prevObj v")
  case None
  assume "checkInitialReceipt c ps v crs r ro = Inr (prv, pobj, crs2)"
    and "prevObj v \<noteq> None \<or> truthy ps"
  with None show ?thesis
    by (auto simp: checkInitialReceipt_def truthy_def
        split: option.splits if_splits sum.splits prod.splits)
next
  case (Some po)
  assume a: "checkInitialReceipt c ps v crs r ro = Inr (prv, pobj, crs2)"
  have "checkInitialReceipt c ps v crs r ro = Inr (prev v, Some po, crs)"
    using Some by (rule checkInitialReceipt_Some)
  with a have "pobj = Some po" by simp
  then show ?thesis by simp
qed

lemma checkAgainstPrevious_used:
  "checkAgainstPrevious pobj used ro = Inr used' \<Longrightarrow>
   used' = insert (receiptId ro) used \<and> (pobj \<noteq> None \<longrightarrow> receiptId ro \<notin> used)"
  by (auto simp: checkAgainstPrevious_def split: option.splits if_splits)

lemma verifyReceipt_used:
  assumes "verifyReceipt c rv k ps v cr = Inr v'"
  shows "usedReceiptIds v' = insert (receiptIdOf c cr) (usedReceiptIds v) \<and>
         (prevObj v \<noteq> None \<or> truthy ps \<longrightarrow> receiptIdOf c cr \<notin> usedReceiptIds v) \<and>
         prevObj v' \<noteq> None"
  using assms
proof (rule verifyReceipt_Inr)
  fix ro a crs1 prv pobj crs2 used crs3
  assume s: "checkSignature c rv v (expandDEPReceipt c cr) = Inr (ro, a, crs1)"
    and i: "checkInitialReceipt c ps v crs1 (expandDEPReceipt c cr) ro = Inr (prv, pobj, crs2)"
    and p: "checkAgainstPrevious pobj (usedReceiptIds v) ro = Inr used"
    and v': "v' = \<lparr>cashRegisterState = crs3, usedReceiptIds = used,
           prev = Some (expandDEPReceipt c cr), prevObj = Some ro\<rparr>"
  from checkSignature_parse [OF s] have id: "receiptIdOf c cr = receiptId ro"
    by (auto simp: receiptIdOf_def)
  show ?thesis
    using checkAgainstPrevious_used [OF p] checkInitialReceipt_pobj [OF i] v' id by auto
qed

lemma verifyGroup_loop_used:
  "verifyGroup_loop c rv k ps v grp = Inr v' \<Longrightarrow>
   usedReceiptIds v' = usedReceiptIds v \<union> set (map (receiptIdOf c) grp) \<and>
   distinct (map (receiptIdOf c) grp) \<and>
   set (tl (map (receiptIdOf c) grp)) \<inter> usedReceiptIds v = {} \<and>
   (prevObj v \<noteq> None \<or> truthy ps \<longrightarrow> set (map (receiptIdOf c) grp) \<inter> usedReceiptIds v = {})"
proof (induction grp arbitrary: v)
  case Nil
  then show ?case by simp
next
  case (Cons cr rest)
  then obtain v1 where v1: "verifyReceipt c rv k ps v cr = Inr v1"
    and l: "verifyGroup_loop c rv k ps v1 rest = Inr v'"
    by (auto split: sum.splits)
  note u = verifyReceipt_used [OF v1]
  note ih = Cons.IH [OF l]
  from u ih show ?case by auto
qed

lemma previousReceipt_truthy:
  "previousReceipt c p = Inr pobj \<Longrightarrow> truthy p \<Longrightarrow> pobj \<noteq> None"
  by (auto simp: previousReceipt_def truthy_def
      split: option.splits sum.splits prod.splits if_splits)

lemma verifyGroup_used:
  assumes "verifyGroup c grp rv k ps crs used = Inr (crs', used')"
  shows "used' = used \<union> set (map (receiptIdOf c) grp) \<and>
         distinct (map (receiptIdOf c) grp) \<and>
         set (tl (map (receiptIdOf c) grp)) \<inter> used = {} \<and>
         (truthy (lastReceiptJWS crs) \<or> truthy ps \<longrightarrow>
            set (map (receiptIdOf c) grp) \<inter> used = {})"
proof -
  from assms obtain pobj v where p: "previousReceipt c (lastReceiptJWS crs) = Inr pobj"
    and l: "verifyGroup_loop c rv k ps
              \<lparr>cashRegisterState = crs, usedReceiptIds = used,
               prev = lastReceiptJWS crs, prevObj = pobj\<rparr> grp = Inr v"
    and u: "used' = usedReceiptIds v"
    by (auto simp: verifyGroup_def split: sum.splits)
  from verifyGroup_loop_used [OF l] previousReceipt_truthy [OF p] u show ?thesis by auto
qed

lemma updateUsedReceiptIds_loop_Inr:
  "updateUsedReceiptIds_loop c seen ss = Inr r \<longleftrightarrow>
   (\<forall>s\<in>set ss. seen \<inter> s = {}) \<and> sorted_wrt (\<lambda>s t. s \<inter> t = {}) ss \<and> r = seen \<union> \<Union>(set ss)"
proof (induction ss arbitrary: seen)
  case Nil
  show ?case by auto
next
  case (Cons s ss)
  show ?case
  proof (cases "seen \<inter> s = {}")
    case True
    then show ?thesis using Cons.IH [of "seen \<union> s"] by (simp add: Int_Un_distrib2) blast
  next
    case False
    then show ?thesis by simp
  qed
qed

lemma updateUsedReceiptIds_loop_Inl:
  "updateUsedReceiptIds_loop c seen ss = Inl e \<Longrightarrow> \<exists>rid. e = DuplicateReceiptIdException rid"
  by (induction ss arbitrary: seen) (auto split: if_splits)

lemma updateUsedReceiptIds_cases:
  "(sorted_wrt (\<lambda>s t. s \<inter> t = {}) (u # outs) \<longrightarrow>
      updateUsedReceiptIds c outs u = Inr (u \<union> \<Union>(set outs))) \<and>
   (\<not> sorted_wrt (\<lambda>s t. s \<inter> t = {}) (u # outs) \<longrightarrow>
      (\<exists>rid. updateUsedReceiptIds c outs u = Inl (DuplicateReceiptIdException rid)))"
proof -
  have iff: "updateUsedReceiptIds c outs u = Inr r \<longleftrightarrow>
        sorted_wrt (\<lambda>s t. s \<inter> t = {}) (u # outs) \<and> r = u \<union> \<Union>(set outs)" for r
    unfolding updateUsedReceiptIds_def updateUsedReceiptIds_loop_Inr by auto
  show ?thesis
  proof (cases "updateUsedReceiptIds c outs u")
    case (Inl e)
    then have "\<exists>rid. e = DuplicateReceiptIdException rid"
      unfolding updateUsedReceiptIds_def by (rule updateUsedReceiptIds_loop_Inl)
    with Inl iff show ?thesis by auto
  next
    case (Inr r)
    with iff show ?thesis by auto
  qed
qed

text \<open>
  C3 (as amended): a receipt that passed the signature and initial-receipt checks
  while a previous receipt object exists (from the register state, from an earlier
  receipt of the run, or from the cluster previous-start) and whose receipt ID is
  already in the used IDs raises DuplicateReceiptIdException. When \<open>verifyGroup\<close>
  returns, the used IDs are the ones passed in and the IDs of the group; the IDs of the
  group are pairwise distinct, all but the first were not among the IDs passed in, and
  neither was the first when the register state held a previous receipt or a cluster
  previous-start was supplied. \<open>updateUsedReceiptIds\<close> raises
  DuplicateReceiptIdException whenever two of the merged sets (the used IDs of the
  cluster and the sets of the packages, in this order) share an ID, and returns their
  union otherwise.
\<close>

theorem receipt_ids_unique:
  "(checkSignature c rv v (expandDEPReceipt c cr) = Inr (ro, a, crs1) \<and>
      checkInitialReceipt c ps v crs1 (expandDEPReceipt c cr) ro = Inr (prv, Some po, crs2) \<and>
      receiptId ro \<in> usedReceiptIds v \<longrightarrow>
      verifyReceipt c rv k ps v cr = Inl (DuplicateReceiptIdException (receiptId ro))) \<and>
   (verifyGroup c grp rv k ps crs used = Inr (crs', used') \<longrightarrow>
      used' = used \<union> set (map (receiptIdOf c) grp) \<and>
      distinct (map (receiptIdOf c) grp) \<and>
      set (tl (map (receiptIdOf c) grp)) \<inter> used = {} \<and>
      (truthy (lastReceiptJWS crs) \<or> truthy ps \<longrightarrow>
         set (map (receiptIdOf c) grp) \<inter> used = {})) \<and>
   ((\<exists>i j. i < j \<and> j < length (u # outs) \<and> (u # outs) ! i \<inter> (u # outs) ! j \<noteq> {}) \<longrightarrow>
      (\<exists>rid. updateUsedReceiptIds c outs u = Inl (DuplicateReceiptIdException rid))) \<and>
   ((\<forall>i j. i < j \<and> j < length (u # outs) \<longrightarrow> (u # outs) ! i \<inter> (u # outs) ! j = {}) \<longrightarrow>
      updateUsedReceiptIds c outs u = Inr (u \<union> \<Union>(set outs)))"
proof -
  have A: "verifyReceipt c rv k ps v cr = Inl (DuplicateReceiptIdException (receiptId ro))"
    if "checkSignature c rv v (expandDEPReceipt c cr) = Inr (ro, a, crs1)"
      and "checkInitialReceipt c ps v crs1 (expandDEPReceipt c cr) ro = Inr (prv, Some po, crs2)"
      and "receiptId ro \<in> usedReceiptIds v"
    using that by (simp add: verifyReceipt_def checkAgainstPrevious_def)
  have B: "used' = used \<union> set (map (receiptIdOf c) grp) \<and>
      distinct (map (receiptIdOf c) grp) \<and>
      set (tl (map (receiptIdOf c) grp)) \<inter> used = {} \<and>
      (truthy (lastReceiptJWS crs) \<or> truthy ps \<longrightarrow>
         set (map (receiptIdOf c) grp) \<inter> used = {})"
    if "verifyGroup c grp rv k ps crs used = Inr (crs', used')"
    using that by (rule verifyGroup_used)
  have nth: "sorted_wrt (\<lambda>s t. s \<inter> t = {}) (u # outs) \<longleftrightarrow>
        (\<forall>i j. i < j \<and> j < length (u # outs) \<longrightarrow> (u # outs) ! i \<inter> (u # outs) ! j = {})"
    unfolding sorted_wrt_iff_nth_less by blast
  have C: "\<exists>rid. updateUsedReceiptIds c outs u = Inl (DuplicateReceiptIdException rid)"
    if "\<exists>i j. i < j \<and> j < length (u # outs) \<and> (u # outs) ! i \<inter> (u # outs) ! j \<noteq> {}"
  proof -
    from that have "\<not> sorted_wrt (\<lambda>s t. s \<inter> t = {}) (u # outs)" unfolding nth by blast
    then show ?thesis using updateUsedReceiptIds_cases [of u outs c] by blast
  qed
  have D: "updateUsedReceiptIds c outs u = Inr (u \<union> \<Union>(set outs))"
    if "\<forall>i j. i < j \<and> j < length (u # outs) \<longrightarrow> (u # outs) ! i \<inter> (u # outs) ! j = {}"
  proof -
    from that have "sorted_wrt (\<lambda>s t. s \<inter> t = {}) (u # outs)" unfolding nth by blast
    then show ?thesis using updateUsedReceiptIds_cases [of u outs c] by blast
  qed
  from A B C D show ?thesis by blast
qed

theorem receipt_ids_unique_witness:
  "verifyReceipt demo_env demo_verifier None None demo_vars1 ''receipt1'' =
     Inl (DuplicateReceiptIdException ''1'') \<and>
   distinct (map (receiptIdOf demo_env) [''receipt1'', ''receipt2'']) \<and>
   (\<exists>rid. updateUsedReceiptIds demo_env [{''2''}, {''3'', ''1''}] {''1''} =
      Inl (DuplicateReceiptIdException rid))"
proof -
  let ?r1 = "demo_receipt ''1'' 0 ''KASSE-01'' False []"
  have s: "checkSignature demo_env demo_verifier demo_vars1
             (expandDEPReceipt demo_env ''receipt1'') = Inr (?r1, R1, demo_state1)"
    by code_simp
  have i: "checkInitialReceipt demo_env None demo_vars1 demo_state1
             (expandDEPReceipt demo_env ''receipt1'') ?r1 =
           Inr (Some ''receipt1'', Some ?r1, demo_state1)"
    by code_simp
  have m: "receiptId ?r1 \<in> usedReceiptIds demo_vars1" by code_simp
  have id: "receiptId ?r1 = ''1''" by code_simp
  have A: "verifyReceipt demo_env demo_verifier None None demo_vars1 ''receipt1'' =
             Inl (DuplicateReceiptIdException ''1'')"
  proof -
    have "verifyReceipt demo_env demo_verifier None None demo_vars1 ''receipt1'' =
             Inl (DuplicateReceiptIdException (receiptId ?r1))"
      using receipt_ids_unique [where c = demo_env and rv = demo_verifier and v = demo_vars1
          and cr = "''receipt1''" and ro = ?r1 and a = R1 and ?crs1.0 = demo_state1
          and ps = None and prv = "Some ''receipt1''" and po = ?r1 and ?crs2.0 = demo_state1
          and k = None] s i m
      by blast
    then show ?thesis using id by simp
  qed
  have ok: "verifyGroup demo_env [''receipt1'', ''receipt2''] demo_verifier None None
              CashRegisterState_new {} =
            Inr (\<lparr>startReceiptJWS = Some ''receipt1'', lastReceiptJWS = Some ''receipt2'',
                  lastTurnoverCounter = 0, needRestoreReceipt = False\<rparr>, {''2'', ''1''})"
    by code_simp
  have B: "distinct (map (receiptIdOf demo_env) [''receipt1'', ''receipt2''])"
    using receipt_ids_unique [where c = demo_env and grp = "[''receipt1'', ''receipt2'']"
        and rv = demo_verifier and k = None and ps = None and crs = CashRegisterState_new
        and used = "{}"] ok
    by blast
  have ov: "(0::nat) < 2 \<and> 2 < length ({''1''} # [{''2''}, {''3'', ''1''}]) \<and>
            ({''1''} # [{''2''}, {''3'', ''1''}]) ! 0 \<inter> ({''1''} # [{''2''}, {''3'', ''1''}]) ! 2 \<noteq> {}"
    by simp
  have C: "\<exists>rid. updateUsedReceiptIds demo_env [{''2''}, {''3'', ''1''}] {''1''} =
             Inl (DuplicateReceiptIdException rid)"
    using receipt_ids_unique [where c = demo_env and u = "{''1''}"
        and outs = "[{''2''}, {''3'', ''1''}]"] ov
    by blast
  from A B C show ?thesis by simp
qed

text \<open>
  The claim as stated fails: the first receipt of a register without cluster
  previous-start is accepted although its receipt ID is already in the used IDs.
\<close>

theorem receipt_ids_counterexample:
  "receiptIdOf demo_env ''receipt1'' \<in> {''1''} \<and>
   verifyGroup demo_env [''receipt1''] demo_verifier None None CashRegisterState_new {''1''} =
     Inr (\<lparr>startReceiptJWS = Some ''receipt1'', lastReceiptJWS = Some ''receipt1'',
           lastTurnoverCounter = 0, needRestoreReceipt = False\<rparr>, {''1''})"
  by code_simp

section \<open>Groups with and without certificate in verifyDEP\<close>

lemma verifyDEP_chunk_append:
  "verifyDEP_chunk c ks k ps d (xs @ ys) =
     (case verifyDEP_chunk c ks k ps d xs of
        Inl e \<Rightarrow> Inl e
      | Inr d' \<Rightarrow> verifyDEP_chunk c ks k ps d' ys)"
  by (induction xs arbitrary: d) (auto split: sum.splits)

lemma verifyDEP_group_one_group:
  "verifyDEP_group c ks k ps d g = Inr d' \<Longrightarrow> one_group d' = Some (fst (snd g) = None)"
  by (auto simp: verifyDEP_group_def split: prod.splits if_splits option.splits sum.splits)

lemma verifyDEP_group_refuses:
  "one_group d = Some og \<Longrightarrow> og \<or> fst (snd g) = None \<Longrightarrow>
   verifyDEP_group c ks k ps d g = Inl NoCertificateGivenException"
  by (cases og) (auto simp: verifyDEP_group_def split: prod.splits)

lemma verifyDEP_loop_concat:
  "[] \<notin> set chunks \<Longrightarrow>
   verifyDEP_loop c ks k ps d chunks = verifyDEP_chunk c ks k ps d (concat chunks)"
proof (induction chunks arbitrary: d)
  case Nil
  show ?case by simp
next
  case (Cons chunk rest)
  then have ne: "chunk \<noteq> []" and r: "[] \<notin> set rest" by auto
  from ne have "\<not> length chunk < 1" by (cases chunk) auto
  then show ?case
    using Cons.IH [OF r] by (auto simp: verifyDEP_chunk_append split: sum.splits)
qed

text \<open>
  C10: in \<open>verifyDEP\<close>, with the groups of the DEP taken in order (every chunk of the
  parser holds a group): once a group has been processed, the group after it raises
  NoCertificateGivenException when the processed group had no certificate (it went
  through the key-store-backed verifier), even if the later group carries a
  certificate, and also when the later group itself has no certificate, so that a group
  without a certificate raises it after every certificate-bearing group.
\<close>

theorem verifyDEP_one_group:
  assumes "getCashRegisterInfo c (case state of None \<Rightarrow> ClusterState_new | Some s \<Rightarrow> s) idx =
             Inr (ps, rs0, u0)"
    and "[] \<notin> set dep"
    and "concat dep = pre @ g0 # g # post"
    and "verifyDEP_chunk c ks k ps \<lparr>one_group = None, rState = rs0, usedRecIds = u0\<rparr>
           (pre @ [g0]) = Inr d1"
    and "fst (snd g0) = None \<or> fst (snd g) = None"
  shows "verifyDEP c dep ks k state idx = Inl NoCertificateGivenException"
proof -
  let ?d0 = "\<lparr>one_group = None, rState = rs0, usedRecIds = u0\<rparr>"
  from assms(4) obtain dp where dp: "verifyDEP_chunk c ks k ps ?d0 pre = Inr dp"
    and g0: "verifyDEP_group c ks k ps dp g0 = Inr d1"
    by (auto simp: verifyDEP_chunk_append split: sum.splits)
  from verifyDEP_group_one_group [OF g0]
  have og: "one_group d1 = Some (fst (snd g0) = None)" .
  have "verifyDEP_group c ks k ps d1 g = Inl NoCertificateGivenException"
    using og assms(5) by (rule verifyDEP_group_refuses)
  then have "verifyDEP_chunk c ks k ps d1 (g # post) = Inl NoCertificateGivenException"
    by simp
  moreover have "pre @ g0 # g # post = (pre @ [g0]) @ (g # post)" by simp
  ultimately have "verifyDEP_chunk c ks k ps ?d0 (concat dep) = Inl NoCertificateGivenException"
    unfolding assms(3) using assms(4) by (simp only: verifyDEP_chunk_append sum.case)
  then have "verifyDEP_loop c ks k ps ?d0 dep = Inl NoCertificateGivenException"
    using verifyDEP_loop_concat [OF assms(2)] by simp
  then show ?thesis using assms(1) by (simp add: verifyDEP_def)
qed

theorem verifyDEP_one_group_witness:
  "verifyDEP demo_env
     [[([''receipt1''], None, []), ([''receipt2''], Some demo_root, [])]]
     demo_keyStore None None None = Inl NoCertificateGivenException"
proof -
  let ?ga = "([''receipt1''], None :: certificate option, [] :: certificate list)"
  let ?gb = "([''receipt2''], Some demo_root, [] :: certificate list)"
  have i: "getCashRegisterInfo demo_env
             (case None of None \<Rightarrow> ClusterState_new | Some s \<Rightarrow> s) None =
           Inr (None, CashRegisterState_new, {})"
    by code_simp
  have n: "[] \<notin> set [[?ga, ?gb]]" by simp
  have cc: "concat [[?ga, ?gb]] = [] @ ?ga # ?gb # []" by simp
  have "verifyDEP_chunk demo_env demo_keyStore None None
              \<lparr>one_group = None, rState = CashRegisterState_new, usedRecIds = {}\<rparr>
              [([''receipt1''], None :: certificate option, [] :: certificate list)] =
            Inr \<lparr>one_group = Some True,
                 rState = \<lparr>startReceiptJWS = Some ''receipt1'', lastReceiptJWS = Some ''receipt1'',
                           lastTurnoverCounter = 0, needRestoreReceipt = False\<rparr>,
                 usedRecIds = {''1''}\<rparr>"
    by code_simp
  then have ok: "verifyDEP_chunk demo_env demo_keyStore None None
              \<lparr>one_group = None, rState = CashRegisterState_new, usedRecIds = {}\<rparr>
              ([] @ [?ga]) =
            Inr \<lparr>one_group = Some True,
                 rState = \<lparr>startReceiptJWS = Some ''receipt1'', lastReceiptJWS = Some ''receipt1'',
                           lastTurnoverCounter = 0, needRestoreReceipt = False\<rparr>,
                 usedRecIds = {''1''}\<rparr>"
    by (simp only: append_Nil)
  have ce: "fst (snd ?ga) = None \<or> fst (snd ?gb) = None" by simp
  show ?thesis
    using verifyDEP_one_group [OF i n cc ok ce] .
qed

end
